theory Spec2Isabelle
  imports Main "HOL-Library.Log_Nat"
begin

section \<open>Python values\<close>

text \<open>
  The three services (\<^verbatim>\<open>vector1_app.py\<close>, \<^verbatim>\<open>vector2_app.py\<close>, \<^verbatim>\<open>vector3_app.py\<close>)
  receive their arguments from decoded JSON, so every argument is a dynamically typed
  Python value and the code tests its type with \<^verbatim>\<open>isinstance\<close>.  A \<^verbatim>\<open>str\<close> is a
  list of characters with code points below 256; an \<^verbatim>\<open>int\<close> is unbounded; a
  \<^verbatim>\<open>float\<close> is an IEEE binary64 value, kept as the rational it denotes (the sign of
  zero is not kept); a \<^verbatim>\<open>dict\<close> is an association list read with \<open>map_of\<close>.
\<close>

datatype pyfloat = Finite rat | PosInf | NegInf | NaN

datatype pyval =
    PNone
  | PBool bool
  | PInt int
  | PFloat pyfloat
  | PStr string
  | PList "pyval list"
  | PDict "(string \<times> pyval) list"

datatype pyexn = OverflowError | ValueError

text \<open>\<^verbatim>\<open>bool(v)\<close>: the truth value of a Python object.\<close>

fun py_bool :: "pyval \<Rightarrow> bool" where
  "py_bool PNone = False"
| "py_bool (PBool b) = b"
| "py_bool (PInt n) = (n \<noteq> 0)"
| "py_bool (PFloat x) = (x \<noteq> Finite 0)"
| "py_bool (PStr s) = (s \<noteq> [])"
| "py_bool (PList xs) = (xs \<noteq> [])"
| "py_bool (PDict kvs) = (kvs \<noteq> [])"

text \<open>
  \<^verbatim>\<open>isinstance(v, int)\<close> holds for \<^verbatim>\<open>int\<close> and for its subclass \<^verbatim>\<open>bool\<close>;
  in arithmetic and comparisons \<^verbatim>\<open>True\<close> is 1 and \<^verbatim>\<open>False\<close> is 0.  \<open>int_value v\<close> is
  the integer of such a value, and \<open>None\<close> when \<^verbatim>\<open>isinstance(v, int)\<close> is false.
\<close>

fun int_value :: "pyval \<Rightarrow> int option" where
  "int_value (PInt n) = Some n"
| "int_value (PBool b) = Some (if b then 1 else 0)"
| "int_value _ = None"

section \<open>Strings\<close>

text \<open>
  \<^verbatim>\<open>str.isspace\<close> on the code points below 256: the controls 9 to 13 and 28 to 31,
  the space, NEL (0x85) and the no-break space (0xA0).
\<close>

definition isspace :: "char \<Rightarrow> bool" where
  "isspace c =
     (let n = (of_char c :: nat)
      in (9 \<le> n \<and> n \<le> 13) \<or> (28 \<le> n \<and> n \<le> 32) \<or> n = 133 \<or> n = 160)"

definition strip :: "string \<Rightarrow> string" where
  "strip s = rev (dropWhile isspace (rev (dropWhile isspace s)))"

text \<open>
  \<^verbatim>\<open>str.lower\<close> on the code points below 256: the ASCII capitals and the Latin-1
  capitals 0xC0 to 0xDE (without the multiplication sign 0xD7) move up by 32.
\<close>

definition lower_char :: "char \<Rightarrow> char" where
  "lower_char c =
     (let n = (of_char c :: nat)
      in if (65 \<le> n \<and> n \<le> 90) \<or> (192 \<le> n \<and> n \<le> 222 \<and> n \<noteq> 215)
         then char_of (n + 32) else c)"

definition lower :: "string \<Rightarrow> string" where
  "lower s = map lower_char s"

fun startswith :: "string \<Rightarrow> string \<Rightarrow> bool" where
  "startswith s [] = True"
| "startswith [] (p # ps) = False"
| "startswith (c # cs) (p # ps) = (c = p \<and> startswith cs ps)"

text \<open>\<^verbatim>\<open>needle in s\<close> for two strings: \<open>needle\<close> occurs in \<open>s\<close> as a substring.\<close>

fun contains :: "string \<Rightarrow> string \<Rightarrow> bool" where
  "contains [] needle = (needle = [])"
| "contains (c # cs) needle = (startswith (c # cs) needle \<or> contains cs needle)"

text \<open>\<^verbatim>\<open>s.split()\<close>: the maximal runs of characters that are not whitespace.\<close>

fun split_words :: "string \<Rightarrow> string \<Rightarrow> string list" where
  "split_words cur [] = (if cur = [] then [] else [cur])"
| "split_words cur (c # cs) =
     (if isspace c
      then (if cur = [] then split_words [] cs else cur # split_words [] cs)
      else split_words (cur @ [c]) cs)"

definition split :: "string \<Rightarrow> string list" where
  "split s = split_words [] s"

section \<open>Floating point\<close>

text \<open>
  A binary64 value is kept as the rational number it denotes.  \<open>round_double q\<close> is the
  binary64 value nearest to the rational \<open>q\<close>, ties to the even significand: the
  rounding of every arithmetic operation, of a float literal and of the conversion of
  an integer.  The significand \<open>m\<close> has 53 bits; below \<open>2 ^ - 1022\<close> the spacing
  stays \<open>2 ^ - 1074\<close>; a result \<open>m * 2 ^ e\<close> of magnitude \<open>2 ^ 1024\<close> or more, which
  is one of more than 1024 bits, is an infinity.
\<close>

definition round_half_even :: "rat \<Rightarrow> int" where
  "round_half_even q =
     (let f = \<lfloor>q\<rfloor>; r = q - of_int f
      in if r < 1 / 2 then f
         else if 1 / 2 < r then f + 1
         else if even f then f else f + 1)"

definition pow2 :: "int \<Rightarrow> rat" where
  "pow2 k = (if 0 \<le> k then 2 ^ nat k else 1 / 2 ^ nat (- k))"

text \<open>\<open>floor_log2 q\<close> is the \<open>k\<close> with \<open>2 ^ k \<le> q < 2 ^ (k + 1)\<close>, for \<open>q > 0\<close>.\<close>

definition floor_log2 :: "rat \<Rightarrow> int" where
  "floor_log2 q =
     (case quotient_of q of (a, b) \<Rightarrow>
        let k = bitlen a - bitlen b
        in if pow2 k \<le> q then k else k - 1)"

definition round_double :: "rat \<Rightarrow> pyfloat" where
  "round_double q =
     (if q = 0 then Finite 0
      else let a = \<bar>q\<bar>;
               e = max (floor_log2 a - 52) (- 1074);
               m = round_half_even (a / pow2 e)
           in if 1024 < bitlen m + e then (if 0 < q then PosInf else NegInf)
              else Finite (sgn q * (of_int m * pow2 e)))"

text \<open>
  The conversion of an \<^verbatim>\<open>int\<close> operand of a float operation.  It rounds to the
  nearest binary64 value and raises \<^verbatim>\<open>OverflowError\<close> ("int too large to convert to
  float") when that would be an infinity, which is from \<open>2 ^ 1024 - 2 ^ 970\<close> on (half
  a spacing above the largest finite value \<open>2 ^ 1024 - 2 ^ 971\<close>).
\<close>

definition int_to_float :: "int \<Rightarrow> pyexn + pyfloat" where
  "int_to_float n =
     (if 2 ^ 1024 - 2 ^ 970 \<le> \<bar>n\<bar> then Inl OverflowError
      else Inr (round_double (of_int n)))"

fun float_sign :: "pyfloat \<Rightarrow> int" where
  "float_sign (Finite a) = (if a = 0 then 0 else if 0 < a then 1 else - 1)"
| "float_sign PosInf = 1"
| "float_sign NegInf = - 1"
| "float_sign NaN = 0"

text \<open>
  \<^verbatim>\<open>x * y\<close> on floats: the exact product rounded once; an infinity times zero and
  anything times a NaN is a NaN.
\<close>

fun float_mul :: "pyfloat \<Rightarrow> pyfloat \<Rightarrow> pyfloat" where
  "float_mul (Finite a) (Finite b) = round_double (a * b)"
| "float_mul x y =
     (if x = NaN \<or> y = NaN \<or> float_sign x * float_sign y = 0 then NaN
      else if 0 < float_sign x * float_sign y then PosInf else NegInf)"

text \<open>
  \<^verbatim>\<open>round(x, ndigits)\<close> on a float, for the small non-negative \<^verbatim>\<open>ndigits\<close> used here:
  the exact value of \<open>x\<close> is rounded to \<^verbatim>\<open>ndigits\<close> decimals, ties to even, and the
  decimal is converted back to the nearest binary64 value; an infinity or a NaN rounds
  to itself.  A finite float of magnitude \<open>2 ^ 53\<close> or more is an integer and rounds to
  itself, so the conversion back never leaves the finite range.
\<close>

fun py_round :: "pyfloat \<Rightarrow> nat \<Rightarrow> pyfloat" where
  "py_round (Finite a) ndigits =
     round_double (of_int (round_half_even (a * 10 ^ ndigits)) / 10 ^ ndigits)"
| "py_round x ndigits = x"

text \<open>
  \<^verbatim>\<open>int(x)\<close> on a float truncates towards zero; it raises \<^verbatim>\<open>OverflowError\<close> on an
  infinity and \<^verbatim>\<open>ValueError\<close> on a NaN.
\<close>

fun py_int :: "pyfloat \<Rightarrow> pyexn + int" where
  "py_int (Finite a) = Inr (if 0 \<le> a then \<lfloor>a\<rfloor> else \<lceil>a\<rceil>)"
| "py_int NaN = Inl ValueError"
| "py_int x = Inl OverflowError"

text \<open>A float literal denotes the binary64 value nearest to its decimal.\<close>

definition float_literal :: "rat \<Rightarrow> pyfloat" where
  "float_literal q = round_double q"

section \<open>Process configuration\<close>

text \<open>
  The module-level names read from the environment when a service starts, and whether
  the import of the payment library succeeded.
\<close>

record env =
  API_AUTH_TOKEN :: string
  STRIPE_AVAILABLE :: bool
  STRIPE_SECRET_KEY :: string
  STRIPE_CURRENCY :: string

datatype vector = V1 | V2 | V3

fun PRICE_PER_UNIT :: "vector \<Rightarrow> pyfloat" where
  "PRICE_PER_UNIT V1 = float_literal (2 / 100)"
| "PRICE_PER_UNIT V2 = float_literal (5 / 100)"
| "PRICE_PER_UNIT V3 = float_literal (3 / 100)"

fun ALLOWED_SERVICES :: "vector \<Rightarrow> string set" where
  "ALLOWED_SERVICES V1 = {''extract_markdown'', ''create_usage_charge'', ''publish_listing''}"
| "ALLOWED_SERVICES V2 = {''run_skill'', ''create_usage_charge'', ''publish_listing''}"
| "ALLOWED_SERVICES V3 = {''generate_llm_txt'', ''create_usage_charge'', ''publish_listing''}"

section \<open>Authorizer\<close>

text \<open>
  The loop of \<^verbatim>\<open>_normalize_auth_token\<close> (vectors 2 and 3), entered with the stripped
  token:
  \<^verbatim>\<open>while token.lower().startswith("bearer "): token = token[7:].strip()\<close>
\<close>

function strip_bearer :: "string \<Rightarrow> string" where
  "strip_bearer token =
     (if startswith (lower token) ''bearer '' then strip_bearer (strip (drop 7 token))
      else token)"
  by pat_completeness auto

lemma length_strip_le: "length (strip s) \<le> length s"
proof -
  have "length (strip s) \<le> length (dropWhile isspace s)"
    unfolding strip_def by (metis length_dropWhile_le length_rev)
  also have "\<dots> \<le> length s"
    by (rule length_dropWhile_le)
  finally show ?thesis .
qed

lemma startswith_length: "startswith s p \<Longrightarrow> length p \<le> length s"
  by (induction s p rule: startswith.induct) auto

termination strip_bearer
proof (relation "measure length")
  show "wf (measure length)" by simp
next
  fix token :: string
  assume h: "startswith (lower token) ''bearer ''"
  from startswith_length [OF h] have "7 \<le> length token"
    by (simp add: lower_def)
  moreover have "length (strip (drop 7 token)) \<le> length token - 7"
    using length_strip_le [of "drop 7 token"] by simp
  ultimately show "(strip (drop 7 token), token) \<in> measure length"
    by simp
qed

declare strip_bearer.simps [simp del]

text \<open>\<^verbatim>\<open>_normalize_auth_token\<close> of vectors 2 and 3.\<close>

definition normalize_auth_token :: "pyval \<Rightarrow> string" where
  "normalize_auth_token auth_token =
     (case auth_token of
        PStr s \<Rightarrow> strip_bearer (strip s)
      | _ \<Rightarrow> [])"

text \<open>
  \<^verbatim>\<open>_is_authorized\<close>.  Vector 1 wants the literal prefix \<^verbatim>\<open>"Bearer "\<close> and compares
  the whole header with \<^verbatim>\<open>f"Bearer {API_AUTH_TOKEN}"\<close>; vectors 2 and 3 compare the
  normalized token with the secret.
\<close>

fun is_authorized :: "vector \<Rightarrow> env \<Rightarrow> pyval \<Rightarrow> bool" where
  "is_authorized V1 cfg auth_token =
     (case auth_token of
        PStr s \<Rightarrow>
          if \<not> startswith s ''Bearer '' then False
          else if API_AUTH_TOKEN cfg = [] then True
          else s = ''Bearer '' @ API_AUTH_TOKEN cfg
      | _ \<Rightarrow> False)"
| "is_authorized V2 cfg auth_token =
     (let token = normalize_auth_token auth_token
      in if token = [] then False
         else if API_AUTH_TOKEN cfg = [] then True
         else token = API_AUTH_TOKEN cfg)"
| "is_authorized V3 cfg auth_token =
     (let token = normalize_auth_token auth_token
      in if token = [] then False
         else if API_AUTH_TOKEN cfg = [] then True
         else token = API_AUTH_TOKEN cfg)"

text \<open>\<^verbatim>\<open>_is_https_url\<close>, the same in the three services.\<close>

definition is_https_url :: "pyval \<Rightarrow> bool" where
  "is_https_url v = (case v of PStr s \<Rightarrow> startswith s ''https://'' | _ \<Rightarrow> False)"

section \<open>Results\<close>

text \<open>
  Every operation returns a dictionary with the keys \<^verbatim>\<open>success\<close> and \<^verbatim>\<open>error\<close> and its
  payload keys; a key holding \<^verbatim>\<open>None\<close> is a field holding \<open>None\<close>.  The key
  \<^verbatim>\<open>payment_intent_id\<close> of a charge exists only once the provider has answered.
\<close>

record response =
  success :: bool
  error :: "string option"

record metadata =
  source_url :: string
  title :: "string option"
  token_count :: nat
  word_count :: nat

record extract_response = response +
  markdown :: "string option"
  metadata :: "metadata option"

record skill_result =
  tables :: int
  rows :: int

record skill_response = response +
  result :: "skill_result option"

record llm_response = response +
  llm_txt :: "string option"
  llm_full_txt :: "string option"

record service_ref =
  service_id :: string

record charge = service_ref +
  agent_id :: pyval
  units :: pyval
  amount_usd :: pyfloat
  status :: string
  payment_intent_id :: "string option"

record charge_response = response +
  charge :: "charge option"

record listing = service_ref +
  openapi_url :: pyval
  llm_txt_url :: pyval

record listing_response = response +
  listing :: "listing option"

section \<open>Vector 1: extract_markdown\<close>

text \<open>
  \<^verbatim>\<open>bool(options.get(key)) if isinstance(options, dict) else False\<close>; a missing key
  reads as \<^verbatim>\<open>None\<close>, which is false.
\<close>

definition option_flag :: "pyval \<Rightarrow> string \<Rightarrow> bool" where
  "option_flag options key =
     (case options of
        PDict kvs \<Rightarrow> (case map_of kvs key of None \<Rightarrow> False | Some v \<Rightarrow> py_bool v)
      | _ \<Rightarrow> False)"

definition extract_failure :: "string \<Rightarrow> extract_response" where
  "extract_failure code =
     \<lparr>success = False, error = Some code, markdown = None, metadata = None\<rparr>"

text \<open>
  The last branch of the \<open>case\<close> is never taken: \<open>is_https_url\<close> has already sent
  every value that is not a \<^verbatim>\<open>str\<close> to \<^verbatim>\<open>INVALID_URL\<close>.
\<close>

definition extract_markdown :: "env \<Rightarrow> pyval \<Rightarrow> pyval \<Rightarrow> pyval \<Rightarrow> extract_response" where
  "extract_markdown cfg url options auth_token =
     (if \<not> is_authorized V1 cfg auth_token then extract_failure ''UNAUTHORIZED''
      else if \<not> is_https_url url then extract_failure ''INVALID_URL''
      else case url of
        PStr u \<Rightarrow>
          if contains u ''site-que-falla'' then extract_failure ''EXTRACTION_FAILED''
          else
            let render_js = option_flag options ''render_js'';
                include_links = option_flag options ''include_links'';
                title = (if contains u ''example.com'' then Some ''Example Site'' else None);
                base_text = ''# '' @ (case title of Some t \<Rightarrow> t | None \<Rightarrow> ''Document'')
                              @ [CHR 0x0A, CHR 0x0A] @ ''Extracted content.'';
                base_text = (if render_js then base_text @ '' Rendered.'' else base_text);
                base_text = (if include_links then base_text @ '' Source: '' @ u else base_text);
                token_count = max 1 (length (split base_text));
                word_count = token_count
            in \<lparr>success = True, error = None, markdown = Some base_text,
                 metadata = Some \<lparr>source_url = u, title = title,
                                   token_count = token_count, word_count = word_count\<rparr>\<rparr>
      | _ \<Rightarrow> extract_failure ''INVALID_URL'')"

section \<open>Vector 2: run_skill\<close>

text \<open>
  \<^verbatim>\<open>base64.b64decode(payload_b64, validate=True)\<close> returns without raising.  The call
  encodes the string as ASCII and decodes it in the strict mode of
  \<^verbatim>\<open>binascii.a2b_base64\<close>: every character before the first \<^verbatim>\<open>=\<close> is of the base64
  alphabet and nothing but \<^verbatim>\<open>=\<close> follows; the string does not begin with \<^verbatim>\<open>=\<close>; with
  \<open>n\<close> characters of data, \<open>n mod 4 = 2\<close> wants exactly two \<^verbatim>\<open>=\<close>, \<open>n mod 4 = 3\<close>
  exactly one, \<open>n mod 4 = 1\<close> always fails, and after complete groups of four
  (\<open>n mod 4 = 0\<close>) any run of \<^verbatim>\<open>=\<close> is skipped.
\<close>

definition b64char :: "char \<Rightarrow> bool" where
  "b64char c =
     (let n = (of_char c :: nat)
      in (65 \<le> n \<and> n \<le> 90) \<or> (97 \<le> n \<and> n \<le> 122) \<or> (48 \<le> n \<and> n \<le> 57)
         \<or> n = 43 \<or> n = 47)"

definition b64decode_validate :: "string \<Rightarrow> bool" where
  "b64decode_validate s =
     (let d = takeWhile (\<lambda>c. c \<noteq> CHR ''='') s;
          p = dropWhile (\<lambda>c. c \<noteq> CHR ''='') s
      in list_all b64char d \<and> list_all (\<lambda>c. c = CHR ''='') p
         \<and> ((length d mod 4 = 0 \<and> (p = [] \<or> d \<noteq> []))
            \<or> (length d mod 4 = 2 \<and> length p = 2)
            \<or> (length d mod 4 = 3 \<and> length p = 1)))"

definition skill_failure :: "string \<Rightarrow> skill_response" where
  "skill_failure code = \<lparr>success = False, error = Some code, result = None\<rparr>"

definition run_skill :: "env \<Rightarrow> pyval \<Rightarrow> pyval \<Rightarrow> pyval \<Rightarrow> skill_response" where
  "run_skill cfg skill_id payload_b64 auth_token =
     (if \<not> is_authorized V2 cfg auth_token then skill_failure ''UNAUTHORIZED''
      else if skill_id \<noteq> PStr ''pdf_financials'' then skill_failure ''UNKNOWN_SKILL''
      else case payload_b64 of
        PStr p \<Rightarrow>
          if p = [] then skill_failure ''INVALID_PAYLOAD''
          else if contains p ''BAD'' then skill_failure ''SKILL_FAILED''
          else if \<not> b64decode_validate p then skill_failure ''INVALID_PAYLOAD''
          else \<lparr>success = True, error = None, result = Some \<lparr>tables = 1, rows = 10\<rparr>\<rparr>
      | _ \<Rightarrow> skill_failure ''INVALID_PAYLOAD'')"

section \<open>Vector 3: generate_llm_txt\<close>

definition llm_failure :: "string \<Rightarrow> llm_response" where
  "llm_failure code = \<lparr>success = False, error = Some code, llm_txt = None, llm_full_txt = None\<rparr>"

definition generate_llm_txt :: "env \<Rightarrow> pyval \<Rightarrow> pyval \<Rightarrow> llm_response" where
  "generate_llm_txt cfg domain auth_token =
     (if \<not> is_authorized V3 cfg auth_token then llm_failure ''UNAUTHORIZED''
      else case domain of
        PStr d \<Rightarrow>
          if contains d ''http'' \<or> contains d ''/'' \<or> contains d '' ''
          then llm_failure ''INVALID_DOMAIN''
          else if contains d ''site-que-falla'' then llm_failure ''CRAWL_FAILED''
          else \<lparr>success = True, error = None,
                 llm_txt = Some (''site: '' @ d @ [CHR 0x0A] @ ''summary: agentic-ready''),
                 llm_full_txt = Some (''site: '' @ d @ [CHR 0x0A] @ ''paths:'' @ [CHR 0x0A]
                                      @ ''- /'' @ [CHR 0x0A] @ ''- /docs'')\<rparr>
      | _ \<Rightarrow> llm_failure ''INVALID_DOMAIN'')"

section \<open>Usage biller\<close>

text \<open>
  The payment provider is the one call \<^verbatim>\<open>stripe.PaymentIntent.create\<close>, made with
  \<^verbatim>\<open>stripe.api_key\<close> set to the secret key: it takes the key, the amount in minor
  units, the currency and the metadata (agent, service, units), and either returns an
  intent, of which the code reads \<^verbatim>\<open>id\<close>, or raises, which is \<open>None\<close>.
\<close>

type_synonym provider = "string \<Rightarrow> int \<Rightarrow> string \<Rightarrow> pyval \<times> string \<times> pyval \<Rightarrow> string option"

definition charge_failure :: "string \<Rightarrow> charge_response" where
  "charge_failure code = \<lparr>success = False, error = Some code, charge = None\<rparr>"

text \<open>
  \<^verbatim>\<open>create_usage_charge\<close>, the same text in the three services, over the service's
  \<^verbatim>\<open>_is_authorized\<close>, \<^verbatim>\<open>ALLOWED_SERVICES\<close> and \<^verbatim>\<open>PRICE_PER_UNIT\<close>.  The product
  \<^verbatim>\<open>units * PRICE_PER_UNIT\<close> converts \<^verbatim>\<open>units\<close> to a float outside any \<^verbatim>\<open>try\<close>, so
  its \<^verbatim>\<open>OverflowError\<close> leaves the function; \<^verbatim>\<open>int(amount_usd * 100)\<close> is evaluated
  inside the \<^verbatim>\<open>try\<close>, so its exception is caught like one of the provider.
\<close>

definition create_usage_charge ::
  "vector \<Rightarrow> env \<Rightarrow> provider \<Rightarrow> pyval \<Rightarrow> pyval \<Rightarrow> pyval \<Rightarrow> pyval \<Rightarrow> pyexn + charge_response" where
  "create_usage_charge v cfg stripe agent service units_arg auth_token =
     (if \<not> is_authorized v cfg auth_token then Inr (charge_failure ''UNAUTHORIZED'')
      else case service of
        PStr sid \<Rightarrow>
          if sid \<notin> ALLOWED_SERVICES v then Inr (charge_failure ''UNKNOWN_SERVICE'')
          else (case int_value units_arg of
            None \<Rightarrow> Inr (charge_failure ''INVALID_UNITS'')
          | Some n \<Rightarrow>
              if n \<le> 0 then Inr (charge_failure ''INVALID_UNITS'')
              else (case int_to_float n of
                Inl e \<Rightarrow> Inl e
              | Inr x \<Rightarrow>
                  let amount = py_round (float_mul x (PRICE_PER_UNIT v)) 4;
                      pending = \<lparr>service_id = sid, agent_id = agent, units = units_arg,
                                 amount_usd = amount, status = ''pending'',
                                 payment_intent_id = None\<rparr>
                  in if STRIPE_AVAILABLE cfg \<and> STRIPE_SECRET_KEY cfg \<noteq> []
                     then (case py_int (float_mul amount (Finite 100)) of
                       Inl e \<Rightarrow> Inr (charge_failure ''STRIPE_ERROR'')
                     | Inr minor \<Rightarrow>
                         (case stripe (STRIPE_SECRET_KEY cfg) minor (STRIPE_CURRENCY cfg)
                                 (agent, sid, units_arg) of
                            None \<Rightarrow> Inr (charge_failure ''STRIPE_ERROR'')
                          | Some intent_id \<Rightarrow>
                              Inr \<lparr>success = True, error = None,
                                   charge = Some (pending\<lparr>status := ''billed'',
                                                    payment_intent_id := Some intent_id\<rparr>)\<rparr>))
                     else Inr \<lparr>success = True, error = None, charge = Some pending\<rparr>))
      | _ \<Rightarrow> Inr (charge_failure ''UNKNOWN_SERVICE''))"

section \<open>Listing publisher\<close>

definition listing_failure :: "string \<Rightarrow> listing_response" where
  "listing_failure code = \<lparr>success = False, error = Some code, listing = None\<rparr>"

definition publish_listing :: "pyval \<Rightarrow> pyval \<Rightarrow> pyval \<Rightarrow> listing_response" where
  "publish_listing service openapi llm =
     (case service of
        PStr sid \<Rightarrow>
          if strip sid = [] then listing_failure ''INVALID_SERVICE''
          else if \<not> is_https_url openapi \<or> \<not> is_https_url llm
          then listing_failure ''INVALID_URL''
          else \<lparr>success = True, error = None,
                 listing = Some \<lparr>service_id = sid, openapi_url = openapi, llm_txt_url = llm\<rparr>\<rparr>
      | _ \<Rightarrow> listing_failure ''INVALID_SERVICE'')"

section \<open>Default configuration\<close>

text \<open>
  The configuration of a process started with none of the variables set: the defaults
  of the three \<^verbatim>\<open>os.getenv\<close> calls, without the payment library.
\<close>

definition dev_env :: env where
  "dev_env = \<lparr>API_AUTH_TOKEN = [], STRIPE_AVAILABLE = False,
               STRIPE_SECRET_KEY = [], STRIPE_CURRENCY = ''usd''\<rparr>"

text \<open>A provider whose call always raises.\<close>

definition no_provider :: provider where
  "no_provider key minor currency meta = None"

section \<open>The amount of the specification\<close>

text \<open>
  The amount as the specification words it, \<^verbatim>\<open>round(u * price, 4)\<close> with the
  service's price, in the float arithmetic of the code (\<open>u\<close> within the range of a
  float).
\<close>

definition spec_amount :: "vector \<Rightarrow> int \<Rightarrow> pyfloat" where
  "spec_amount v u = py_round (float_mul (round_double (of_int u)) (PRICE_PER_UNIT v)) 4"

section \<open>Stripped strings\<close>

text \<open>A stripped string is empty or begins and ends with a character that is not whitespace.\<close>

definition stripped :: "string \<Rightarrow> bool" where
  "stripped s = (s = [] \<or> (\<not> isspace (hd s) \<and> \<not> isspace (last s)))"

section \<open>Facts about stripping\<close>


lemma dropWhile_skip:
  "list_all P a \<Longrightarrow> ys \<noteq> [] \<Longrightarrow> \<not> P (hd ys) \<Longrightarrow> dropWhile P (a @ ys) = ys"
  by (induction a) (auto simp: neq_Nil_conv)

lemma strip_sandwich:
  assumes a: "list_all isspace a" and b: "list_all isspace b"
    and m: "m \<noteq> []" "\<not> isspace (hd m)" "\<not> isspace (last m)"
  shows "strip (a @ m @ b) = m"
proof -
  have 1: "dropWhile isspace (a @ m @ b) = m @ b"
    using a m by (intro dropWhile_skip) simp_all
  have rb: "list_all isspace (rev b)" using b by (simp add: list_all_iff)
  have "dropWhile isspace (rev b @ rev m) = rev m"
    using rb m by (intro dropWhile_skip) (simp_all add: hd_rev)
  then show ?thesis
    by (simp add: strip_def 1)
qed

lemma strip_blank: "list_all isspace s \<Longrightarrow> strip s = []"
proof -
  assume "list_all isspace s"
  then have d: "dropWhile isspace s = []" by (simp add: list_all_iff)
  show ?thesis unfolding strip_def d by simp
qed

lemma strip_decompose:
  assumes "\<not> list_all isspace x"
  shows "\<exists>a b. x = a @ strip x @ b \<and> list_all isspace a \<and> list_all isspace b
           \<and> strip x \<noteq> [] \<and> \<not> isspace (hd (strip x)) \<and> \<not> isspace (last (strip x))"
proof -
  define a where "a = takeWhile isspace x"
  define t where "t = dropWhile isspace x"
  define b where "b = rev (takeWhile isspace (rev t))"
  define u where "u = dropWhile isspace (rev t)"
  have x: "x = a @ t" by (simp add: a_def t_def)
  have t_ne: "t \<noteq> []" using assms by (auto simp: t_def list_all_iff)
  have hd_t: "\<not> isspace (hd t)" using t_ne unfolding t_def by (rule hd_dropWhile)
  have rt: "rev t = rev b @ u" by (simp add: b_def u_def)
  have "last (rev t) = hd t" using t_ne by (simp add: last_rev)
  have u_ne: "u \<noteq> []"
  proof
    assume "u = []"
    then have "\<forall>c \<in> set (rev t). isspace c" by (simp add: u_def)
    then have "isspace (hd t)" using t_ne by simp
    with hd_t show False by simp
  qed
  have hd_u: "\<not> isspace (hd u)" using u_ne unfolding u_def by (rule hd_dropWhile)
  have last_u: "last u = hd t"
    using rt u_ne t_ne by (metis last_appendR last_rev)
  have s: "strip x = rev u" by (simp add: strip_def t_def u_def)
  have "t = rev u @ b" using rt by (metis rev_append rev_rev_ident)
  then have "x = a @ strip x @ b" using x s by simp
  moreover have "list_all isspace a" by (simp add: a_def list_all_iff) (meson set_takeWhileD)
  moreover have "list_all isspace b" by (simp add: b_def list_all_iff) (meson set_takeWhileD)
  moreover have "strip x \<noteq> []" using s u_ne by simp
  moreover have "\<not> isspace (hd (strip x))" using s u_ne last_u hd_t by (simp add: hd_rev)
  moreover have "\<not> isspace (last (strip x))" using s u_ne hd_u by (simp add: last_rev)
  ultimately show ?thesis by blast
qed




lemma strip_Nil: "strip [] = []"
  by (simp add: strip_def)

lemma strip_bearer_step:
  "startswith (lower token) ''bearer '' \<Longrightarrow> strip_bearer token = strip_bearer (strip (drop 7 token))"
  by (subst strip_bearer.simps) simp

lemma strip_bearer_stop:
  "\<not> startswith (lower token) ''bearer '' \<Longrightarrow> strip_bearer token = token"
  by (subst strip_bearer.simps) simp

lemma strip_bearer_Nil: "strip_bearer [] = []"
  by (rule strip_bearer_stop) (simp add: lower_def)

lemma stripped_strip: "stripped (strip s)"
proof (cases "list_all isspace s")
  case True
  then show ?thesis by (simp add: strip_blank stripped_def)
next
  case False
  from strip_decompose [OF this] have
    "\<not> isspace (hd (strip s))" "\<not> isspace (last (strip s))" by blast+
  then show ?thesis by (simp add: stripped_def)
qed

lemma strip_stripped: "stripped s \<Longrightarrow> strip s = s"
proof (cases "s = []")
  case True
  then show ?thesis by (simp add: strip_Nil)
next
  case False
  assume "stripped s"
  with False have h: "\<not> isspace (hd s)" "\<not> isspace (last s)" by (simp_all add: stripped_def)
  have "strip ([] @ s @ []) = s"
    by (rule strip_sandwich) (simp_all add: False h)
  then show ?thesis by simp
qed

lemma strip_strip: "strip (strip s) = strip s"
  by (rule strip_stripped) (rule stripped_strip)

lemma strip_bearer_fixed:
  "stripped token \<Longrightarrow> stripped (strip_bearer token) \<and> \<not> startswith (lower (strip_bearer token)) ''bearer ''"
proof (induction token rule: strip_bearer.induct)
  case (1 token)
  show ?case
  proof (cases "startswith (lower token) ''bearer ''")
    case True
    have "stripped (strip (drop 7 token))" by (rule stripped_strip)
    from "1.IH" [OF True this] show ?thesis
      unfolding strip_bearer_step [OF True] .
  next
    case False
    with "1.prems" show ?thesis
      unfolding strip_bearer_stop [OF False] by simp
  qed
qed

lemma normalize_idem: "normalize_auth_token (PStr (normalize_auth_token a)) = normalize_auth_token a"
proof (cases "\<exists>s. a = PStr s")
  case True
  then obtain s where a: "a = PStr s" by blast
  have st: "stripped (strip s)" by (rule stripped_strip)
  note f = strip_bearer_fixed [OF st]
  have 1: "strip (strip_bearer (strip s)) = strip_bearer (strip s)"
    using f by (simp add: strip_stripped)
  have 2: "strip_bearer (strip_bearer (strip s)) = strip_bearer (strip s)"
    using f by (simp add: strip_bearer_stop)
  show ?thesis by (simp add: a normalize_auth_token_def 1 2)
next
  case False
  then have "normalize_auth_token a = []"
    by (cases a) (simp_all add: normalize_auth_token_def)
  then show ?thesis
    by (simp add: normalize_auth_token_def strip_Nil strip_bearer_Nil)
qed


lemma startswith_append: "startswith (q @ r) q"
  by (induction q) simp_all

lemma isspace_lower_char: "isspace c \<Longrightarrow> lower_char c = c"
  by (auto simp: isspace_def lower_char_def Let_def)

lemma not_isspace_b: "\<not> isspace (CHR ''b'')"
  by (simp add: isspace_def)

lemma bearer_prefix_shape:
  assumes "lower p = ''bearer ''"
  shows "length p = 7" and "p \<noteq> []" and "\<not> isspace (hd p)"
proof -
  from assms have "length (lower p) = 7" by simp
  then show l: "length p = 7" by (simp add: lower_def)
  then show ne: "p \<noteq> []" by auto
  from assms ne have "lower_char (hd p) = CHR ''b''"
    by (cases p) (simp_all add: lower_def)
  then show "\<not> isspace (hd p)"
    using isspace_lower_char [of "hd p"] not_isspace_b by auto
qed

lemma normalize_one_prefix:
  assumes w: "list_all isspace w" and p: "lower p = ''bearer ''" and x: "\<not> list_all isspace x"
  shows "normalize_auth_token (PStr (w @ p @ x)) = normalize_auth_token (PStr x)"
proof -
  from strip_decompose [OF x] obtain a b where
    dec: "x = a @ strip x @ b" and a: "list_all isspace a" and b: "list_all isspace b"
    and m: "strip x \<noteq> []" "\<not> isspace (hd (strip x))" "\<not> isspace (last (strip x))"
    by blast
  define m where "m = strip x"
  note sh = bearer_prefix_shape [OF p]
  have mid: "p @ a @ m \<noteq> []" "\<not> isspace (hd (p @ a @ m))" "\<not> isspace (last (p @ a @ m))"
    using sh m by (simp_all add: m_def)
  have "w @ p @ x = w @ (p @ a @ m) @ b"
    using dec by (simp add: m_def)
  then have 1: "strip (w @ p @ x) = p @ a @ m"
    using strip_sandwich [OF w b mid] by simp
  have "lower (p @ a @ m) = ''bearer '' @ lower (a @ m)"
    using p by (simp add: lower_def)
  then have 2: "startswith (lower (p @ a @ m)) ''bearer ''"
    using startswith_append [of "''bearer ''" "lower (a @ m)"] by simp
  have 3: "drop 7 (p @ a @ m) = a @ m"
    using sh(1) by simp
  have "strip (a @ m @ []) = m"
    using m by (intro strip_sandwich a) (simp_all add: m_def)
  then have 4: "strip (a @ m) = m" by simp
  have "strip_bearer (p @ a @ m) = strip_bearer m"
    using strip_bearer_step [OF 2] by (simp only: 3 4)
  then show ?thesis
    by (simp add: normalize_auth_token_def 1 m_def)
qed


lemma normalize_prefixes:
  assumes "list_all (\<lambda>(w, p). list_all isspace w \<and> lower p = ''bearer '') ps"
    and "\<not> list_all isspace x"
  shows "normalize_auth_token (PStr (concat (map (\<lambda>(w, p). w @ p) ps) @ x))
         = normalize_auth_token (PStr x)"
  using assms
proof (induction ps)
  case Nil
  then show ?case by simp
next
  case (Cons wp ps)
  obtain w p where wp: "wp = (w, p)" by (cases wp)
  let ?rest = "concat (map (\<lambda>(w, p). w @ p) ps) @ x"
  from Cons.prems wp have w: "list_all isspace w" and p: "lower p = ''bearer ''"
    and ps: "list_all (\<lambda>(w, p). list_all isspace w \<and> lower p = ''bearer '') ps"
    by simp_all
  have nb: "\<not> list_all isspace ?rest"
    using Cons.prems(2) by simp
  have "normalize_auth_token (PStr (w @ p @ ?rest)) = normalize_auth_token (PStr ?rest)"
    by (rule normalize_one_prefix [OF w p nb])
  also have "\<dots> = normalize_auth_token (PStr x)"
    by (rule Cons.IH [OF ps Cons.prems(2)])
  finally show ?case by (simp add: wp)
qed

lemma lower_char_space: "lower_char c = CHR '' '' \<Longrightarrow> c = CHR '' ''"
proof (cases "(65 \<le> (of_char c :: nat) \<and> (of_char c :: nat) \<le> 90)
    \<or> (192 \<le> (of_char c :: nat) \<and> (of_char c :: nat) \<le> 222 \<and> (of_char c :: nat) \<noteq> 215)")
  case True
  assume a: "lower_char c = CHR '' ''"
  from True have "lower_char c = char_of ((of_char c :: nat) + 32)"
    by (simp add: lower_char_def Let_def)
  with a have "take_bit 8 ((of_char c :: nat) + 32) = 32"
    by (simp add: char_of_eq_iff)
  moreover from True have "(of_char c :: nat) + 32 < 256" by auto
  ultimately have "(of_char c :: nat) + 32 = 32"
    by (simp add: take_bit_eq_mod)
  with True show ?thesis by auto
next
  case False
  assume a: "lower_char c = CHR '' ''"
  have "lower_char c = c"
    unfolding lower_char_def Let_def if_not_P [OF False] ..
  with a show ?thesis by simp
qed

lemma lower_char_not_space: "lower_char c = d \<Longrightarrow> \<not> isspace d \<Longrightarrow> \<not> isspace c"
  using isspace_lower_char by auto

lemma bearer_prefix_chars:
  assumes "lower p = ''bearer ''"
  shows "\<exists>word. p = word @ '' '' \<and> word \<noteq> [] \<and> \<not> isspace (hd word) \<and> \<not> isspace (last word)
           \<and> length word = 6"
proof -
  from assms obtain c1 c2 c3 c4 c5 c6 c7 where p: "p = [c1, c2, c3, c4, c5, c6, c7]"
    and l: "lower_char c1 = CHR ''b''" "lower_char c6 = CHR ''r''" "lower_char c7 = CHR '' ''"
    by (auto simp: lower_def map_eq_Cons_conv)
  have "c7 = CHR '' ''" using l(3) by (rule lower_char_space)
  moreover have "\<not> isspace c1" using l(1) by (rule lower_char_not_space) (simp add: isspace_def)
  moreover have "\<not> isspace c6" using l(2) by (rule lower_char_not_space) (simp add: isspace_def)
  ultimately have "p = [c1, c2, c3, c4, c5, c6] @ '' '' \<and> [c1, c2, c3, c4, c5, c6] \<noteq> []
      \<and> \<not> isspace (hd [c1, c2, c3, c4, c5, c6]) \<and> \<not> isspace (last [c1, c2, c3, c4, c5, c6])
      \<and> length [c1, c2, c3, c4, c5, c6] = 6"
    using p by simp
  then show ?thesis by blast
qed

lemma normalize_blank_tail:
  assumes pre: "list_all (\<lambda>(w, p). list_all isspace w \<and> lower p = ''bearer '') ps"
    and w: "list_all isspace w" and p: "lower p = ''bearer ''" and x: "list_all isspace x"
  shows "normalize_auth_token (PStr (concat (map (\<lambda>(w, p). w @ p) ps) @ w @ p @ x)) = butlast p"
proof -
  from bearer_prefix_chars [OF p] obtain word where pw: "p = word @ '' ''"
    and word: "word \<noteq> []" "\<not> isspace (hd word)" "\<not> isspace (last word)"
    and len: "length word = 6" by blast
  have bl: "butlast p = word" using pw by (simp add: butlast_append)
  let ?tail = "'' '' @ x"
  have tail: "list_all isspace ?tail" using x by (simp add: isspace_def)
  have s: "strip (w @ word @ ?tail) = word"
    by (rule strip_sandwich [OF w tail word])
  have "\<not> startswith (lower word) ''bearer ''"
  proof
    assume "startswith (lower word) ''bearer ''"
    from startswith_length [OF this] show False using len by (simp add: lower_def)
  qed
  then have "strip_bearer word = word" by (rule strip_bearer_stop)
  with s have one: "normalize_auth_token (PStr (w @ word @ ?tail)) = word"
    by (simp add: normalize_auth_token_def)
  have nb: "\<not> list_all isspace (w @ word @ ?tail)"
    using word by (cases word) (simp_all)
  have "normalize_auth_token (PStr (concat (map (\<lambda>(w, p). w @ p) ps) @ (w @ word @ ?tail)))
        = normalize_auth_token (PStr (w @ word @ ?tail))"
    by (rule normalize_prefixes [OF pre nb])
  with one bl show ?thesis by (simp add: pw)
qed

lemma startswith_eq_append: "startswith s p \<longleftrightarrow> (\<exists>r. s = p @ r)"
  by (induction s p rule: startswith.induct) auto

section \<open>The authorizer\<close>

text \<open>
  C7, as the code has it.  Normalizing a normalized credential changes nothing.  Any
  number of leading prefixes, each some whitespace followed by \<^verbatim>\<open>Bearer \<close> in any
  letter case, normalize away when what follows them holds a character that is not
  whitespace; so \<^verbatim>\<open>Bearer Bearer Bearer x\<close> normalizes as \<^verbatim>\<open>x\<close> does.  When nothing
  but whitespace follows the last prefix, that prefix is not removed: the normalized
  credential is its scheme word as typed, without the space.
\<close>

theorem normalize_auth_token_idempotent:
  "normalize_auth_token (PStr (normalize_auth_token a)) = normalize_auth_token a
   \<and> (list_all (\<lambda>(w, p). list_all isspace w \<and> lower p = ''bearer '') ps
        \<and> \<not> list_all isspace x
      \<longrightarrow> normalize_auth_token (PStr (concat (map (\<lambda>(w, p). w @ p) ps) @ x))
          = normalize_auth_token (PStr x))
   \<and> normalize_auth_token (PStr ''Bearer Bearer Bearer x'') = normalize_auth_token (PStr ''x'')
   \<and> (list_all (\<lambda>(w, p). list_all isspace w \<and> lower p = ''bearer '') qs
        \<and> list_all isspace v \<and> lower q = ''bearer '' \<and> list_all isspace y
      \<longrightarrow> normalize_auth_token (PStr (concat (map (\<lambda>(w, p). w @ p) qs) @ v @ q @ y))
          = butlast q)"
proof (intro conjI impI)
  show "normalize_auth_token (PStr (normalize_auth_token a)) = normalize_auth_token a"
    by (rule normalize_idem)
next
  assume "list_all (\<lambda>(w, p). list_all isspace w \<and> lower p = ''bearer '') ps
            \<and> \<not> list_all isspace x"
  then show "normalize_auth_token (PStr (concat (map (\<lambda>(w, p). w @ p) ps) @ x))
             = normalize_auth_token (PStr x)"
    using normalize_prefixes by blast
next
  show "normalize_auth_token (PStr ''Bearer Bearer Bearer x'') = normalize_auth_token (PStr ''x'')"
    by code_simp
next
  assume "list_all (\<lambda>(w, p). list_all isspace w \<and> lower p = ''bearer '') qs
        \<and> list_all isspace v \<and> lower q = ''bearer '' \<and> list_all isspace y"
  then show "normalize_auth_token (PStr (concat (map (\<lambda>(w, p). w @ p) qs) @ v @ q @ y))
          = butlast q"
    using normalize_blank_tail by blast
qed

theorem normalize_auth_token_idempotent_witness:
  "list_all (\<lambda>(w, p). list_all isspace w \<and> lower p = ''bearer '')
     [(''  '', ''BeArEr ''), ([], ''bearer '')]
   \<and> \<not> list_all isspace '' tok ''
   \<and> normalize_auth_token (PStr (''  BeArEr bearer  tok '')) = ''tok''
   \<and> list_all (\<lambda>(w, p). list_all isspace w \<and> lower p = ''bearer '') [([], ''Bearer '')]
   \<and> list_all isspace '' '' \<and> lower ''bEARER '' = ''bearer '' \<and> list_all isspace ''   ''
   \<and> normalize_auth_token (PStr (''Bearer  bEARER    '')) = ''bEARER''"
proof -
  have h: "list_all (\<lambda>(w, p). list_all isspace w \<and> lower p = ''bearer '')
             [(''  '', ''BeArEr ''), ([], ''bearer '')]
           \<and> \<not> list_all isspace '' tok ''"
    by code_simp
  have k: "list_all (\<lambda>(w, p). list_all isspace w \<and> lower p = ''bearer '') [([], ''Bearer '')]
           \<and> list_all isspace '' '' \<and> lower ''bEARER '' = ''bearer '' \<and> list_all isspace ''   ''"
    by code_simp
  note t = normalize_auth_token_idempotent [of PNone "[(''  '', ''BeArEr ''), ([], ''bearer '')]"
      "'' tok ''" "[([], ''Bearer '')]" "'' ''" "''bEARER ''" "''   ''"]
  from t h
  have "normalize_auth_token
          (PStr (concat (map (\<lambda>(w, p). w @ p) [(''  '', ''BeArEr ''), ([], ''bearer '')]) @ '' tok ''))
        = normalize_auth_token (PStr '' tok '')"
    by blast
  moreover have "normalize_auth_token (PStr '' tok '') = ''tok''"
    by code_simp
  ultimately have r1: "normalize_auth_token (PStr (''  BeArEr bearer  tok '')) = ''tok''"
    by simp
  from t k
  have "normalize_auth_token
          (PStr (concat (map (\<lambda>(w, p). w @ p) [([], ''Bearer '')]) @ '' '' @ ''bEARER '' @ ''   ''))
        = butlast ''bEARER ''"
    by blast
  then have r2: "normalize_auth_token (PStr (''Bearer  bEARER    '')) = ''bEARER''"
    by simp
  from h k r1 r2 show ?thesis by blast
qed

text \<open>
  The prefix does not normalize away when nothing but whitespace follows it: the first
  strip removes the space that the prefix test needs, and the scheme word stays as the
  token.
\<close>

theorem normalize_auth_token_prefix_counterexample:
  "normalize_auth_token (PStr (''Bearer '' @ [])) = ''Bearer''
   \<and> normalize_auth_token (PStr []) = []"
  by code_simp

text \<open>
  C2, as the code has it.  In vectors 2 and 3 a credential is authorized exactly when
  no secret is configured and the normalized credential is not empty, or a secret is
  configured and the normalized credential equals it.  Vector 1 does not normalize: a
  credential is authorized exactly when it starts with the literal \<^verbatim>\<open>Bearer \<close> and
  either no secret is configured or what follows the prefix equals the secret.
\<close>

theorem is_authorized_iff:
  "is_authorized V2 cfg (PStr c)
     = ((API_AUTH_TOKEN cfg = [] \<and> normalize_auth_token (PStr c) \<noteq> [])
        \<or> (API_AUTH_TOKEN cfg \<noteq> [] \<and> normalize_auth_token (PStr c) = API_AUTH_TOKEN cfg))
   \<and> is_authorized V3 cfg (PStr c)
     = ((API_AUTH_TOKEN cfg = [] \<and> normalize_auth_token (PStr c) \<noteq> [])
        \<or> (API_AUTH_TOKEN cfg \<noteq> [] \<and> normalize_auth_token (PStr c) = API_AUTH_TOKEN cfg))
   \<and> is_authorized V1 cfg (PStr c)
     = (startswith c ''Bearer '' \<and> (API_AUTH_TOKEN cfg = [] \<or> drop 7 c = API_AUTH_TOKEN cfg))"
proof (intro conjI)
  show "is_authorized V1 cfg (PStr c)
     = (startswith c ''Bearer '' \<and> (API_AUTH_TOKEN cfg = [] \<or> drop 7 c = API_AUTH_TOKEN cfg))"
  proof (cases "startswith c ''Bearer ''")
    case True
    then obtain r where "c = ''Bearer '' @ r" unfolding startswith_eq_append by blast
    then show ?thesis using True by simp
  next
    case False
    then show ?thesis by simp
  qed
qed (auto simp: Let_def)

text \<open>
  With no secret configured, vector 1 refuses the bare token \<^verbatim>\<open>x\<close>, whose normalized
  form is not empty, and accepts \<^verbatim>\<open>Bearer \<close>, which holds no token after the prefix.
\<close>

theorem is_authorized_v1_counterexample:
  "API_AUTH_TOKEN dev_env = []
   \<and> normalize_auth_token (PStr ''x'') = ''x''
   \<and> is_authorized V1 dev_env (PStr ''x'') = False
   \<and> is_authorized V1 dev_env (PStr ''Bearer '') = True
   \<and> drop 7 ''Bearer '' = []"
  by code_simp

section \<open>The usage biller\<close>

text \<open>
  The bound of \<open>int_to_float\<close> is where \<open>round_double\<close> turns infinite: the integer just
  below it rounds to the largest finite float, the bound itself to an infinity.
\<close>

lemma round_double_below_bound:
  "round_double (of_int (2 ^ 1024 - 2 ^ 970 - 1)) = Finite (of_int (2 ^ 1024 - 2 ^ 971))"
  by code_simp

lemma round_double_at_bound:
  "round_double (of_int (2 ^ 1024 - 2 ^ 970)) = PosInf"
  by code_simp

lemma int_to_float_Inr: "int_to_float n = Inr x \<Longrightarrow> x = round_double (of_int n)"
  by (simp add: int_to_float_def split: if_splits)

lemma int_to_float_small:
  "\<bar>n\<bar> < 2 ^ 1024 - 2 ^ 970 \<Longrightarrow> int_to_float n = Inr (round_double (of_int n))"
  by (simp add: int_to_float_def)

lemma int_to_float_cases:
  "int_to_float n = Inl OverflowError \<or> int_to_float n = Inr (round_double (of_int n))"
  by (simp add: int_to_float_def)

lemma charge_amount_returned:
  assumes "create_usage_charge v cfg stripe agent service (PInt u) tok = Inr r"
    and "charge r = Some c"
  shows "amount_usd c = spec_amount v u"
proof -
  from int_to_float_cases [of u] show ?thesis
  proof
    assume "int_to_float u = Inl OverflowError"
    with assms show ?thesis
      by (auto simp: create_usage_charge_def charge_failure_def
          split: if_splits pyval.splits)
  next
    assume "int_to_float u = Inr (round_double (of_int u))"
    with assms show ?thesis
      by (auto simp: create_usage_charge_def charge_failure_def spec_amount_def Let_def
          split: if_splits pyval.splits sum.splits option.splits)
  qed
qed

lemma charge_pending:
  assumes "is_authorized v cfg tok" "sid \<in> ALLOWED_SERVICES v" "int_value units_arg = Some n"
    "0 < n" "n < 2 ^ 1024 - 2 ^ 970" "\<not> (STRIPE_AVAILABLE cfg \<and> STRIPE_SECRET_KEY cfg \<noteq> [])"
  shows "create_usage_charge v cfg stripe agent (PStr sid) units_arg tok
         = Inr \<lparr>success = True, error = None,
                charge = Some \<lparr>service_id = sid, agent_id = agent, units = units_arg,
                               amount_usd = spec_amount v n, status = ''pending'',
                               payment_intent_id = None\<rparr>\<rparr>"
proof -
  have "int_to_float n = Inr (round_double (of_int n))"
    using assms(4,5) by (intro int_to_float_small) simp
  note f = this
  show ?thesis
  proof (cases "STRIPE_AVAILABLE cfg")
    case True
    with assms(6) have "STRIPE_SECRET_KEY cfg = []" by blast
    with f assms(1,2,3,4) show ?thesis
      by (simp add: create_usage_charge_def spec_amount_def Let_def)
  next
    case False
    with f assms(1,2,3,4) show ?thesis
      by (simp add: create_usage_charge_def spec_amount_def Let_def)
  qed
qed


lemma charge_with_provider:
  assumes "is_authorized v cfg tok" "sid \<in> ALLOWED_SERVICES v" "int_value units_arg = Some n"
    "0 < n" "n < 2 ^ 1024 - 2 ^ 970" "STRIPE_AVAILABLE cfg" "STRIPE_SECRET_KEY cfg \<noteq> []"
  shows "create_usage_charge v cfg stripe agent (PStr sid) units_arg tok
         = (case py_int (float_mul (spec_amount v n) (Finite 100)) of
              Inl e \<Rightarrow> Inr \<lparr>success = False, error = Some ''STRIPE_ERROR'', charge = None\<rparr>
            | Inr minor \<Rightarrow>
                (case stripe (STRIPE_SECRET_KEY cfg) minor (STRIPE_CURRENCY cfg)
                        (agent, sid, units_arg) of
                   None \<Rightarrow> Inr \<lparr>success = False, error = Some ''STRIPE_ERROR'', charge = None\<rparr>
                 | Some intent_id \<Rightarrow>
                     Inr \<lparr>success = True, error = None,
                          charge = Some \<lparr>service_id = sid, agent_id = agent, units = units_arg,
                                         amount_usd = spec_amount v n, status = ''billed'',
                                         payment_intent_id = Some intent_id\<rparr>\<rparr>))"
proof -
  have "int_to_float n = Inr (round_double (of_int n))"
    using assms(4,5) by (intro int_to_float_small) simp
  with assms(1,2,3,4,6,7) show ?thesis
    by (simp add: create_usage_charge_def charge_failure_def spec_amount_def Let_def
        split: sum.splits option.splits)
qed

lemma unauthorized_charge:
  "\<not> is_authorized v cfg tok \<Longrightarrow>
   create_usage_charge v cfg stripe agent service units_arg tok
   = Inr \<lparr>success = False, error = Some ''UNAUTHORIZED'', charge = None\<rparr>"
  by (simp add: create_usage_charge_def charge_failure_def)

text \<open>
  C3, as the code has it.  A service identifier that is not a string of the allow-list
  yields \<^verbatim>\<open>UNKNOWN_SERVICE\<close> with no charge when the credential is authorized; the
  authorization check comes first, so with a credential that is not authorized the
  answer is \<^verbatim>\<open>UNAUTHORIZED\<close>.
\<close>

theorem unknown_service:
  assumes "\<not> (\<exists>sid. service = PStr sid \<and> sid \<in> ALLOWED_SERVICES v)"
  shows "create_usage_charge v cfg stripe agent service units_arg tok
         = (if is_authorized v cfg tok
            then Inr \<lparr>success = False, error = Some ''UNKNOWN_SERVICE'', charge = None\<rparr>
            else Inr \<lparr>success = False, error = Some ''UNAUTHORIZED'', charge = None\<rparr>)"
  using assms
  by (cases service) (simp_all add: create_usage_charge_def charge_failure_def)

theorem unknown_service_witness:
  "\<not> (\<exists>sid. PStr ''nope'' = PStr sid \<and> sid \<in> ALLOWED_SERVICES V2)
   \<and> is_authorized V2 dev_env (PStr ''Bearer t'')
   \<and> create_usage_charge V2 dev_env no_provider (PStr ''agent'') (PStr ''nope'') (PInt 1)
        (PStr ''Bearer t'')
      = Inr \<lparr>success = False, error = Some ''UNKNOWN_SERVICE'', charge = None\<rparr>"
proof -
  have h: "\<not> (\<exists>sid. PStr ''nope'' = PStr sid \<and> sid \<in> ALLOWED_SERVICES V2)"
    by simp
  have a: "is_authorized V2 dev_env (PStr ''Bearer t'')"
    by code_simp
  from unknown_service [OF h, of dev_env no_provider "PStr ''agent''" "PInt 1" "PStr ''Bearer t''"] a h
  show ?thesis by simp
qed

theorem unknown_service_counterexample:
  "''nope'' \<notin> ALLOWED_SERVICES V1
   \<and> create_usage_charge V1 dev_env no_provider (PStr ''agent'') (PStr ''nope'') (PInt 1)
        (PStr ''x'')
      = Inr \<lparr>success = False, error = Some ''UNAUTHORIZED'', charge = None\<rparr>"
  by (simp add: create_usage_charge_def charge_failure_def dev_env_def)

lemma v2_t: "is_authorized V2 dev_env (PStr ''t'')"
  by code_simp

lemma v1_bearer_t: "is_authorized V1 dev_env (PStr ''Bearer t'')"
  by code_simp

lemma spec_amount_one:
  "spec_amount V1 1 = float_literal (2 / 100)"
  "spec_amount V2 1 = float_literal (5 / 100)"
  "spec_amount V3 1 = float_literal (3 / 100)"
  by code_simp+





lemma minor_one:
  "py_int (float_mul (spec_amount V1 1) (Finite 100)) = Inr 2"
  "py_int (float_mul (spec_amount V2 1) (Finite 100)) = Inr 5"
  "py_int (float_mul (spec_amount V3 1) (Finite 100)) = Inr 3"
  by code_simp+

text \<open>
  C10.  With an authorized credential and an allow-listed service identifier, the units
  value \<^verbatim>\<open>True\<close> passes the integer check: the call never answers
  \<^verbatim>\<open>INVALID_UNITS\<close>, and it produces a charge whose units field is \<^verbatim>\<open>True\<close> and whose
  amount is \<^verbatim>\<open>round(1 * price, 4)\<close>, pending when no provider is configured and billed
  when the configured provider answers; only a failing provider call turns it into
  \<^verbatim>\<open>STRIPE_ERROR\<close>.
\<close>

theorem true_units_accepted:
  assumes "is_authorized v cfg tok" and "sid \<in> ALLOWED_SERVICES v"
  shows "create_usage_charge v cfg stripe agent (PStr sid) (PBool True) tok
         = (if STRIPE_AVAILABLE cfg \<and> STRIPE_SECRET_KEY cfg \<noteq> []
            then (case stripe (STRIPE_SECRET_KEY cfg) (case v of V1 \<Rightarrow> 2 | V2 \<Rightarrow> 5 | V3 \<Rightarrow> 3)
                         (STRIPE_CURRENCY cfg) (agent, sid, PBool True) of
                    None \<Rightarrow> Inr \<lparr>success = False, error = Some ''STRIPE_ERROR'', charge = None\<rparr>
                  | Some intent_id \<Rightarrow>
                      Inr \<lparr>success = True, error = None,
                           charge = Some \<lparr>service_id = sid, agent_id = agent,
                                          units = PBool True,
                                          amount_usd = py_round (float_mul (Finite 1) (PRICE_PER_UNIT v)) 4,
                                          status = ''billed'',
                                          payment_intent_id = Some intent_id\<rparr>\<rparr>)
            else Inr \<lparr>success = True, error = None,
                      charge = Some \<lparr>service_id = sid, agent_id = agent, units = PBool True,
                                     amount_usd = py_round (float_mul (Finite 1) (PRICE_PER_UNIT v)) 4,
                                     status = ''pending'', payment_intent_id = None\<rparr>\<rparr>)"
proof -
  have iv: "int_value (PBool True) = Some 1" by simp
  have one: "round_double (of_int 1) = Finite 1" by code_simp
  have am: "spec_amount v 1 = py_round (float_mul (Finite 1) (PRICE_PER_UNIT v)) 4"
    unfolding spec_amount_def one ..
  have mi: "py_int (float_mul (spec_amount v 1) (Finite 100))
            = Inr (case v of V1 \<Rightarrow> 2 | V2 \<Rightarrow> 5 | V3 \<Rightarrow> 3)"
    by (cases v) (simp_all add: minor_one)
  show ?thesis
  proof (cases "STRIPE_AVAILABLE cfg \<and> STRIPE_SECRET_KEY cfg \<noteq> []")
    case True
    then have c: "STRIPE_AVAILABLE cfg" "STRIPE_SECRET_KEY cfg \<noteq> []" by simp_all
    have "create_usage_charge v cfg stripe agent (PStr sid) (PBool True) tok
          = (case py_int (float_mul (spec_amount v 1) (Finite 100)) of
              Inl e \<Rightarrow> Inr \<lparr>success = False, error = Some ''STRIPE_ERROR'', charge = None\<rparr>
            | Inr minor \<Rightarrow>
                (case stripe (STRIPE_SECRET_KEY cfg) minor (STRIPE_CURRENCY cfg)
                        (agent, sid, PBool True) of
                   None \<Rightarrow> Inr \<lparr>success = False, error = Some ''STRIPE_ERROR'', charge = None\<rparr>
                 | Some intent_id \<Rightarrow>
                     Inr \<lparr>success = True, error = None,
                          charge = Some \<lparr>service_id = sid, agent_id = agent, units = PBool True,
                                         amount_usd = spec_amount v 1, status = ''billed'',
                                         payment_intent_id = Some intent_id\<rparr>\<rparr>))"
      by (rule charge_with_provider [OF assms iv _ _ c]) simp_all
    then show ?thesis using True unfolding am mi [unfolded am] by simp
  next
    case False
    have "create_usage_charge v cfg stripe agent (PStr sid) (PBool True) tok
         = Inr \<lparr>success = True, error = None,
                charge = Some \<lparr>service_id = sid, agent_id = agent, units = PBool True,
                               amount_usd = spec_amount v 1, status = ''pending'',
                               payment_intent_id = None\<rparr>\<rparr>"
      by (rule charge_pending [OF assms iv _ _ False]) simp_all
    then show ?thesis unfolding am if_not_P [OF False] .
  qed
qed


theorem true_units_accepted_witness:
  "is_authorized V1 dev_env (PStr ''Bearer t'')
   \<and> ''extract_markdown'' \<in> ALLOWED_SERVICES V1
   \<and> create_usage_charge V1 dev_env no_provider (PStr ''agent'') (PStr ''extract_markdown'')
        (PBool True) (PStr ''Bearer t'')
      = Inr \<lparr>success = True, error = None,
             charge = Some \<lparr>service_id = ''extract_markdown'', agent_id = PStr ''agent'',
                            units = PBool True, amount_usd = float_literal (2 / 100),
                            status = ''pending'', payment_intent_id = None\<rparr>\<rparr>"
proof -
  have s: "''extract_markdown'' \<in> ALLOWED_SERVICES V1" by simp
  have amt: "py_round (float_mul (Finite 1) (PRICE_PER_UNIT V1)) 4 = float_literal (2 / 100)"
    by code_simp
  have nocfg: "\<not> (STRIPE_AVAILABLE dev_env \<and> STRIPE_SECRET_KEY dev_env \<noteq> [])"
    by (simp add: dev_env_def)
  note th = true_units_accepted [OF v1_bearer_t s, of no_provider "PStr ''agent''",
      unfolded if_not_P [OF nocfg] amt]
  from v1_bearer_t s th show ?thesis by blast
qed

text \<open>
  C1.  For every positive integer unit count \<open>u\<close>, with an authorized credential and an
  allow-listed service identifier, every charge that \<^verbatim>\<open>create_usage_charge\<close> returns
  carries the amount \<^verbatim>\<open>round(u * price, 4)\<close>, and with no provider configured the
  charge is returned for every \<open>u\<close> that converts to a float.  The prices are the float
  literals 0.02, 0.05 and 0.03, and for 1, 10 and 333 units the amounts are the floats
  0.02, 0.2, 6.66 (vector 1), 0.05, 0.5, 16.65 (vector 2) and 0.03, 0.3, 9.99
  (vector 3).
\<close>

theorem usage_charge_amount:
  assumes "is_authorized v cfg tok" and "sid \<in> ALLOWED_SERVICES v" and "0 < u"
  shows "(\<forall>r c. create_usage_charge v cfg stripe agent (PStr sid) (PInt u) tok = Inr r
                 \<and> charge r = Some c \<longrightarrow> amount_usd c = spec_amount v u)
    \<and> (u < 2 ^ 1024 - 2 ^ 970 \<and> \<not> (STRIPE_AVAILABLE cfg \<and> STRIPE_SECRET_KEY cfg \<noteq> [])
        \<longrightarrow> create_usage_charge v cfg stripe agent (PStr sid) (PInt u) tok
            = Inr \<lparr>success = True, error = None,
                   charge = Some \<lparr>service_id = sid, agent_id = agent, units = PInt u,
                                  amount_usd = spec_amount v u, status = ''pending'',
                                  payment_intent_id = None\<rparr>\<rparr>)
    \<and> PRICE_PER_UNIT V1 = float_literal (2 / 100)
    \<and> PRICE_PER_UNIT V2 = float_literal (5 / 100)
    \<and> PRICE_PER_UNIT V3 = float_literal (3 / 100)
    \<and> spec_amount V1 1 = float_literal (2 / 100)
    \<and> spec_amount V1 10 = float_literal (20 / 100)
    \<and> spec_amount V1 333 = float_literal (666 / 100)
    \<and> spec_amount V2 1 = float_literal (5 / 100)
    \<and> spec_amount V2 10 = float_literal (50 / 100)
    \<and> spec_amount V2 333 = float_literal (1665 / 100)
    \<and> spec_amount V3 1 = float_literal (3 / 100)
    \<and> spec_amount V3 10 = float_literal (30 / 100)
    \<and> spec_amount V3 333 = float_literal (999 / 100)"
proof (intro conjI allI impI)
  fix r c
  assume "create_usage_charge v cfg stripe agent (PStr sid) (PInt u) tok = Inr r \<and> charge r = Some c"
  then show "amount_usd c = spec_amount v u"
    using charge_amount_returned by blast
next
  assume h: "u < 2 ^ 1024 - 2 ^ 970 \<and> \<not> (STRIPE_AVAILABLE cfg \<and> STRIPE_SECRET_KEY cfg \<noteq> [])"
  have iv: "int_value (PInt u) = Some u" by simp
  from h have b: "u < 2 ^ 1024 - 2 ^ 970"
    and np: "\<not> (STRIPE_AVAILABLE cfg \<and> STRIPE_SECRET_KEY cfg \<noteq> [])" by blast+
  show "create_usage_charge v cfg stripe agent (PStr sid) (PInt u) tok
            = Inr \<lparr>success = True, error = None,
                   charge = Some \<lparr>service_id = sid, agent_id = agent, units = PInt u,
                                  amount_usd = spec_amount v u, status = ''pending'',
                                  payment_intent_id = None\<rparr>\<rparr>"
    by (rule charge_pending [OF assms(1,2) iv assms(3) b np])
next
  show "spec_amount V1 1 = float_literal (2 / 100)" by (rule spec_amount_one)
  show "spec_amount V2 1 = float_literal (5 / 100)" by (rule spec_amount_one)
  show "spec_amount V3 1 = float_literal (3 / 100)" by (rule spec_amount_one)
  show "spec_amount V1 10 = float_literal (20 / 100)" by code_simp
  show "spec_amount V1 333 = float_literal (666 / 100)" by code_simp
  show "spec_amount V2 10 = float_literal (50 / 100)" by code_simp
  show "spec_amount V2 333 = float_literal (1665 / 100)" by code_simp
  show "spec_amount V3 10 = float_literal (30 / 100)" by code_simp
  show "spec_amount V3 333 = float_literal (999 / 100)" by code_simp
qed simp_all

text \<open>
  The same theorem at a concrete request.
\<close>

theorem usage_charge_amount_witness:
  "is_authorized V1 dev_env (PStr ''Bearer t'')
   \<and> ''extract_markdown'' \<in> ALLOWED_SERVICES V1
   \<and> create_usage_charge V1 dev_env no_provider (PStr ''agent'') (PStr ''extract_markdown'')
        (PInt 333) (PStr ''Bearer t'')
      = Inr \<lparr>success = True, error = None,
             charge = Some \<lparr>service_id = ''extract_markdown'', agent_id = PStr ''agent'',
                            units = PInt 333, amount_usd = float_literal (666 / 100),
                            status = ''pending'', payment_intent_id = None\<rparr>\<rparr>"
proof -
  have s: "''extract_markdown'' \<in> ALLOWED_SERVICES V1" by simp
  have pos: "(0 :: int) < 333" by simp
  have h: "(333 :: int) < 2 ^ 1024 - 2 ^ 970
           \<and> \<not> (STRIPE_AVAILABLE dev_env \<and> STRIPE_SECRET_KEY dev_env \<noteq> [])"
    by (simp add: dev_env_def)
  note th = usage_charge_amount [OF v1_bearer_t s pos, of no_provider "PStr ''agent''"]
  from th h have
    "create_usage_charge V1 dev_env no_provider (PStr ''agent'') (PStr ''extract_markdown'')
        (PInt 333) (PStr ''Bearer t'')
      = Inr \<lparr>success = True, error = None,
             charge = Some \<lparr>service_id = ''extract_markdown'', agent_id = PStr ''agent'',
                            units = PInt 333, amount_usd = spec_amount V1 333,
                            status = ''pending'', payment_intent_id = None\<rparr>\<rparr>"
    by blast
  moreover from th have "spec_amount V1 333 = float_literal (666 / 100)" by blast
  ultimately show ?thesis using v1_bearer_t s by simp
qed

text \<open>
  C4, at the input where the code leaves the claim.  The request is authorized, its
  service identifier is allow-listed, its unit count \<open>2 ^ 1024\<close> is a positive integer
  and no provider is configured, so the claim promises a pending charge with
  \<^verbatim>\<open>success = True\<close>.  The product \<^verbatim>\<open>units * PRICE_PER_UNIT\<close> raises
  \<^verbatim>\<open>OverflowError\<close> instead, outside the only \<^verbatim>\<open>try\<close> of the function, and no result
  is returned.  Below the range of a float the claim holds: see \<open>charge_pending\<close> and
  \<open>charge_with_provider\<close>.
\<close>

theorem create_usage_charge_overflow:
  "is_authorized V1 dev_env (PStr ''Bearer t'')
   \<and> ''extract_markdown'' \<in> ALLOWED_SERVICES V1
   \<and> int_value (PInt (2 ^ 1024)) = Some (2 ^ 1024) \<and> (0 :: int) < 2 ^ 1024
   \<and> STRIPE_AVAILABLE dev_env = False
   \<and> create_usage_charge V1 dev_env no_provider (PStr ''agent'') (PStr ''extract_markdown'')
        (PInt (2 ^ 1024)) (PStr ''Bearer t'')
      = Inl OverflowError"
proof -
  have "int_to_float (2 ^ 1024) = Inl OverflowError"
    by (simp add: int_to_float_def)
  then have "create_usage_charge V1 dev_env no_provider (PStr ''agent'') (PStr ''extract_markdown'')
        (PInt (2 ^ 1024)) (PStr ''Bearer t'') = Inl OverflowError"
    using v1_bearer_t by (simp add: create_usage_charge_def)
  then show ?thesis using v1_bearer_t by (simp add: dev_env_def)
qed


section \<open>The listing publisher\<close>

text \<open>
  C8.  \<^verbatim>\<open>publish_listing\<close> answers \<^verbatim>\<open>INVALID_SERVICE\<close> whenever the service identifier
  is not a string that is non-empty after trimming, whatever the two URLs are;
  otherwise \<^verbatim>\<open>INVALID_URL\<close> when either URL fails the \<^verbatim>\<open>https://\<close> prefix check;
  otherwise it echoes the listing with \<^verbatim>\<open>success = True\<close>.
\<close>

theorem publish_listing_precedence:
  "((\<forall>sid. service = PStr sid \<longrightarrow> strip sid = [])
      \<longrightarrow> publish_listing service openapi llm
          = \<lparr>success = False, error = Some ''INVALID_SERVICE'', listing = None\<rparr>)
   \<and> (strip sid \<noteq> [] \<and> (\<not> is_https_url openapi \<or> \<not> is_https_url llm)
      \<longrightarrow> publish_listing (PStr sid) openapi llm
          = \<lparr>success = False, error = Some ''INVALID_URL'', listing = None\<rparr>)
   \<and> (strip sid \<noteq> [] \<and> is_https_url openapi \<and> is_https_url llm
      \<longrightarrow> publish_listing (PStr sid) openapi llm
          = \<lparr>success = True, error = None,
             listing = Some \<lparr>service_id = sid, openapi_url = openapi, llm_txt_url = llm\<rparr>\<rparr>)"
proof (intro conjI impI)
  assume "\<forall>sid. service = PStr sid \<longrightarrow> strip sid = []"
  then show "publish_listing service openapi llm
          = \<lparr>success = False, error = Some ''INVALID_SERVICE'', listing = None\<rparr>"
    by (cases service) (simp_all add: publish_listing_def listing_failure_def)
next
  assume "strip sid \<noteq> [] \<and> (\<not> is_https_url openapi \<or> \<not> is_https_url llm)"
  then show "publish_listing (PStr sid) openapi llm
          = \<lparr>success = False, error = Some ''INVALID_URL'', listing = None\<rparr>"
    by (auto simp: publish_listing_def listing_failure_def)
next
  assume "strip sid \<noteq> [] \<and> is_https_url openapi \<and> is_https_url llm"
  then show "publish_listing (PStr sid) openapi llm
          = \<lparr>success = True, error = None,
             listing = Some \<lparr>service_id = sid, openapi_url = openapi, llm_txt_url = llm\<rparr>\<rparr>"
    by (simp add: publish_listing_def)
qed

theorem publish_listing_precedence_witness:
  "strip ''  '' = []
   \<and> is_https_url (PStr ''https://a.test/openapi.json'')
   \<and> is_https_url (PStr ''https://a.test/llm.txt'')
   \<and> \<not> is_https_url (PStr ''http://a.test/llm.txt'')
   \<and> strip ''svc'' \<noteq> []
   \<and> publish_listing (PStr ''  '') (PStr ''https://a.test/openapi.json'')
        (PStr ''https://a.test/llm.txt'')
      = \<lparr>success = False, error = Some ''INVALID_SERVICE'', listing = None\<rparr>
   \<and> publish_listing (PStr ''svc'') (PStr ''https://a.test/openapi.json'')
        (PStr ''http://a.test/llm.txt'')
      = \<lparr>success = False, error = Some ''INVALID_URL'', listing = None\<rparr>
   \<and> publish_listing (PStr ''svc'') (PStr ''https://a.test/openapi.json'')
        (PStr ''https://a.test/llm.txt'')
      = \<lparr>success = True, error = None,
         listing = Some \<lparr>service_id = ''svc'',
                          openapi_url = PStr ''https://a.test/openapi.json'',
                          llm_txt_url = PStr ''https://a.test/llm.txt''\<rparr>\<rparr>"
proof -
  have b: "strip ''  '' = []" by code_simp
  have h1: "\<forall>sid. PStr ''  '' = PStr sid \<longrightarrow> strip sid = []" using b by simp
  have u1: "is_https_url (PStr ''https://a.test/openapi.json'')" by (simp add: is_https_url_def)
  have u2: "is_https_url (PStr ''https://a.test/llm.txt'')" by (simp add: is_https_url_def)
  have u3: "\<not> is_https_url (PStr ''http://a.test/llm.txt'')" by (simp add: is_https_url_def)
  have s: "strip ''svc'' \<noteq> []" by code_simp
  note t1 = publish_listing_precedence [of "PStr ''  ''" "PStr ''https://a.test/openapi.json''"
      "PStr ''https://a.test/llm.txt''" "''svc''"]
  note t2 = publish_listing_precedence [of "PStr ''  ''" "PStr ''https://a.test/openapi.json''"
      "PStr ''http://a.test/llm.txt''" "''svc''"]
  from t1 h1 have r1: "publish_listing (PStr ''  '') (PStr ''https://a.test/openapi.json'')
        (PStr ''https://a.test/llm.txt'')
      = \<lparr>success = False, error = Some ''INVALID_SERVICE'', listing = None\<rparr>" by blast
  from t2 s u3 have r2: "publish_listing (PStr ''svc'') (PStr ''https://a.test/openapi.json'')
        (PStr ''http://a.test/llm.txt'')
      = \<lparr>success = False, error = Some ''INVALID_URL'', listing = None\<rparr>" by blast
  from t1 s u1 u2 have r3: "publish_listing (PStr ''svc'') (PStr ''https://a.test/openapi.json'')
        (PStr ''https://a.test/llm.txt'')
      = \<lparr>success = True, error = None,
         listing = Some \<lparr>service_id = ''svc'',
                          openapi_url = PStr ''https://a.test/openapi.json'',
                          llm_txt_url = PStr ''https://a.test/llm.txt''\<rparr>\<rparr>" by blast
  from b u1 u2 u3 s r1 r2 r3 show ?thesis by blast
qed


section \<open>The capability handlers\<close>

text \<open>
  The decoder on short payloads: padding after a complete group of four is accepted,
  a missing or short padding is not, and nothing may follow the padding.
\<close>

lemma b64_probes:
  "b64decode_validate ''QUJD='' = True"
  "b64decode_validate ''QUJD=='' = True"
  "b64decode_validate ''QUJD===='' = True"
  "b64decode_validate ''QQ=='' = True"
  "b64decode_validate ''QUI='' = True"
  "b64decode_validate ''BAD'' = False"
  "b64decode_validate ''abc'' = False"
  "b64decode_validate ''QQ='' = False"
  "b64decode_validate ''='' = False"
  "b64decode_validate ''QUJD=A'' = False"
  by code_simp+

text \<open>
  C5, as the code has it.  For an authorized call of \<^verbatim>\<open>extract_markdown\<close> and of
  \<^verbatim>\<open>generate_llm_txt\<close>, an input that fails the syntactic check yields the handler's
  invalid-input code, and the simulated-failure code is returned only for inputs that
  pass the check.  In \<^verbatim>\<open>run_skill\<close> (authorized, known skill) only the test that the
  payload is a non-empty string comes before the marker test: a payload that is not a
  non-empty string yields \<^verbatim>\<open>INVALID_PAYLOAD\<close>; a non-empty string holding the marker
  \<^verbatim>\<open>BAD\<close> yields \<^verbatim>\<open>SKILL_FAILED\<close>, valid base64 or not; a string without the marker
  that does not decode yields \<^verbatim>\<open>INVALID_PAYLOAD\<close>; a non-empty string without the
  marker that decodes yields the fixed result; and \<^verbatim>\<open>SKILL_FAILED\<close> is returned only for non-empty
  strings holding the marker.
\<close>

theorem invalid_input_before_simulated_failure:
  "(is_authorized V1 cfg tok1 \<and> \<not> is_https_url url
      \<longrightarrow> extract_markdown cfg url options tok1
          = \<lparr>success = False, error = Some ''INVALID_URL'', markdown = None, metadata = None\<rparr>)
   \<and> (error (extract_markdown cfg url options tok1) = Some ''EXTRACTION_FAILED''
      \<longrightarrow> is_https_url url)
   \<and> (is_authorized V3 cfg tok3
        \<and> (\<forall>d. domain = PStr d \<longrightarrow> contains d ''http'' \<or> contains d ''/'' \<or> contains d '' '')
      \<longrightarrow> generate_llm_txt cfg domain tok3
          = \<lparr>success = False, error = Some ''INVALID_DOMAIN'', llm_txt = None,
             llm_full_txt = None\<rparr>)
   \<and> (error (generate_llm_txt cfg domain tok3) = Some ''CRAWL_FAILED''
      \<longrightarrow> (\<exists>d. domain = PStr d \<and> \<not> contains d ''http'' \<and> \<not> contains d ''/''
               \<and> \<not> contains d '' ''))
   \<and> (is_authorized V2 cfg tok2 \<and> (\<forall>p. payload = PStr p \<longrightarrow> p = [])
      \<longrightarrow> run_skill cfg (PStr ''pdf_financials'') payload tok2
          = \<lparr>success = False, error = Some ''INVALID_PAYLOAD'', result = None\<rparr>)
   \<and> (is_authorized V2 cfg tok2 \<and> p \<noteq> [] \<and> contains p ''BAD''
      \<longrightarrow> run_skill cfg (PStr ''pdf_financials'') (PStr p) tok2
          = \<lparr>success = False, error = Some ''SKILL_FAILED'', result = None\<rparr>)
   \<and> (is_authorized V2 cfg tok2 \<and> \<not> contains p ''BAD'' \<and> \<not> b64decode_validate p
      \<longrightarrow> run_skill cfg (PStr ''pdf_financials'') (PStr p) tok2
          = \<lparr>success = False, error = Some ''INVALID_PAYLOAD'', result = None\<rparr>)
   \<and> (error (run_skill cfg skill payload tok2) = Some ''SKILL_FAILED''
      \<longrightarrow> (\<exists>p. payload = PStr p \<and> p \<noteq> [] \<and> contains p ''BAD''))
   \<and> (is_authorized V2 cfg tok2 \<and> p \<noteq> [] \<and> \<not> contains p ''BAD'' \<and> b64decode_validate p
      \<longrightarrow> run_skill cfg (PStr ''pdf_financials'') (PStr p) tok2
          = \<lparr>success = True, error = None, result = Some \<lparr>tables = 1, rows = 10\<rparr>\<rparr>)"
proof (intro conjI impI)
  assume "is_authorized V1 cfg tok1 \<and> \<not> is_https_url url"
  then show "extract_markdown cfg url options tok1
          = \<lparr>success = False, error = Some ''INVALID_URL'', markdown = None, metadata = None\<rparr>"
    by (simp add: extract_markdown_def extract_failure_def)
next
  assume "error (extract_markdown cfg url options tok1) = Some ''EXTRACTION_FAILED''"
  then show "is_https_url url"
    by (simp add: extract_markdown_def extract_failure_def split: if_splits)
next
  assume "is_authorized V3 cfg tok3
        \<and> (\<forall>d. domain = PStr d \<longrightarrow> contains d ''http'' \<or> contains d ''/'' \<or> contains d '' '')"
  then show "generate_llm_txt cfg domain tok3
          = \<lparr>success = False, error = Some ''INVALID_DOMAIN'', llm_txt = None,
             llm_full_txt = None\<rparr>"
    by (cases domain) (auto simp: generate_llm_txt_def llm_failure_def)
next
  assume "error (generate_llm_txt cfg domain tok3) = Some ''CRAWL_FAILED''"
  then show "\<exists>d. domain = PStr d \<and> \<not> contains d ''http'' \<and> \<not> contains d ''/''
               \<and> \<not> contains d '' ''"
    by (cases domain) (auto simp: generate_llm_txt_def llm_failure_def split: if_splits)
next
  assume "is_authorized V2 cfg tok2 \<and> (\<forall>p. payload = PStr p \<longrightarrow> p = [])"
  then show "run_skill cfg (PStr ''pdf_financials'') payload tok2
          = \<lparr>success = False, error = Some ''INVALID_PAYLOAD'', result = None\<rparr>"
    by (cases payload) (simp_all add: run_skill_def skill_failure_def)
next
  assume "is_authorized V2 cfg tok2 \<and> p \<noteq> [] \<and> contains p ''BAD''"
  then show "run_skill cfg (PStr ''pdf_financials'') (PStr p) tok2
          = \<lparr>success = False, error = Some ''SKILL_FAILED'', result = None\<rparr>"
    by (simp add: run_skill_def skill_failure_def)
next
  assume "is_authorized V2 cfg tok2 \<and> \<not> contains p ''BAD'' \<and> \<not> b64decode_validate p"
  then show "run_skill cfg (PStr ''pdf_financials'') (PStr p) tok2
          = \<lparr>success = False, error = Some ''INVALID_PAYLOAD'', result = None\<rparr>"
    by (simp add: run_skill_def skill_failure_def)
next
  assume "error (run_skill cfg skill payload tok2) = Some ''SKILL_FAILED''"
  then show "\<exists>p. payload = PStr p \<and> p \<noteq> [] \<and> contains p ''BAD''"
    by (cases payload) (auto simp: run_skill_def skill_failure_def split: if_splits)
next
  assume "is_authorized V2 cfg tok2 \<and> p \<noteq> [] \<and> \<not> contains p ''BAD'' \<and> b64decode_validate p"
  then show "run_skill cfg (PStr ''pdf_financials'') (PStr p) tok2
          = \<lparr>success = True, error = None, result = Some \<lparr>tables = 1, rows = 10\<rparr>\<rparr>"
    by (simp add: run_skill_def)
qed

text \<open>
  The payload \<^verbatim>\<open>BAD\<close> fails the base64 validity check (three characters, no
  padding), and \<^verbatim>\<open>run_skill\<close> answers \<^verbatim>\<open>SKILL_FAILED\<close>: the marker is tested before
  the payload is decoded.
\<close>

theorem run_skill_marker_counterexample:
  "is_authorized V2 dev_env (PStr ''t'')
   \<and> b64decode_validate ''BAD'' = False
   \<and> run_skill dev_env (PStr ''pdf_financials'') (PStr ''BAD'') (PStr ''t'')
      = \<lparr>success = False, error = Some ''SKILL_FAILED'', result = None\<rparr>"
proof -
  have "b64decode_validate ''BAD'' = False" by code_simp
  moreover have "contains ''BAD'' ''BAD''" by simp
  ultimately show ?thesis using v2_t
    by (simp add: run_skill_def skill_failure_def)
qed


theorem invalid_input_before_simulated_failure_witness:
  "is_authorized V1 dev_env (PStr ''Bearer t'')
   \<and> \<not> is_https_url (PStr ''http://site-que-falla.test'')
   \<and> extract_markdown dev_env (PStr ''http://site-que-falla.test'') (PDict []) (PStr ''Bearer t'')
      = \<lparr>success = False, error = Some ''INVALID_URL'', markdown = None, metadata = None\<rparr>
   \<and> is_authorized V2 dev_env (PStr ''t'')
   \<and> \<not> contains ''abc'' ''BAD'' \<and> \<not> b64decode_validate ''abc''
   \<and> run_skill dev_env (PStr ''pdf_financials'') (PStr ''abc'') (PStr ''t'')
      = \<lparr>success = False, error = Some ''INVALID_PAYLOAD'', result = None\<rparr>
   \<and> ''xBADx'' \<noteq> [] \<and> contains ''xBADx'' ''BAD''
   \<and> run_skill dev_env (PStr ''pdf_financials'') (PStr ''xBADx'') (PStr ''t'')
      = \<lparr>success = False, error = Some ''SKILL_FAILED'', result = None\<rparr>
   \<and> ''QUJD='' \<noteq> [] \<and> \<not> contains ''QUJD='' ''BAD'' \<and> b64decode_validate ''QUJD=''
   \<and> run_skill dev_env (PStr ''pdf_financials'') (PStr ''QUJD='') (PStr ''t'')
      = \<lparr>success = True, error = None, result = Some \<lparr>tables = 1, rows = 10\<rparr>\<rparr>"
proof -
  have u: "\<not> is_https_url (PStr ''http://site-que-falla.test'')"
    by (simp add: is_https_url_def)
  have c1: "\<not> contains ''abc'' ''BAD'' \<and> \<not> b64decode_validate ''abc''" by code_simp
  have c2: "''xBADx'' \<noteq> [] \<and> contains ''xBADx'' ''BAD''" by simp
  note t1 = invalid_input_before_simulated_failure
      [of dev_env "PStr ''Bearer t''" "PStr ''http://site-que-falla.test''" "PDict []"
          _ _ "PStr ''t''" _ "''abc''"]
  have c3: "''QUJD='' \<noteq> [] \<and> \<not> contains ''QUJD='' ''BAD'' \<and> b64decode_validate ''QUJD=''"
    by code_simp
  note t2 = invalid_input_before_simulated_failure
      [of dev_env _ _ _ _ _ "PStr ''t''" _ "''xBADx''"]
  note t3 = invalid_input_before_simulated_failure
      [of dev_env _ _ _ _ _ "PStr ''t''" _ "''QUJD=''"]
  from t1 v1_bearer_t u have r1:
    "extract_markdown dev_env (PStr ''http://site-que-falla.test'') (PDict []) (PStr ''Bearer t'')
      = \<lparr>success = False, error = Some ''INVALID_URL'', markdown = None, metadata = None\<rparr>"
    by blast
  from t1 v2_t c1 have r2:
    "run_skill dev_env (PStr ''pdf_financials'') (PStr ''abc'') (PStr ''t'')
      = \<lparr>success = False, error = Some ''INVALID_PAYLOAD'', result = None\<rparr>"
    by blast
  from t2 v2_t c2 have r3:
    "run_skill dev_env (PStr ''pdf_financials'') (PStr ''xBADx'') (PStr ''t'')
      = \<lparr>success = False, error = Some ''SKILL_FAILED'', result = None\<rparr>"
    by blast
  from t3 v2_t c3 have r4:
    "run_skill dev_env (PStr ''pdf_financials'') (PStr ''QUJD='') (PStr ''t'')
      = \<lparr>success = True, error = None, result = Some \<lparr>tables = 1, rows = 10\<rparr>\<rparr>"
    by blast
  from v1_bearer_t u r1 v2_t c1 r2 c2 r3 c3 r4 show ?thesis by blast
qed

section \<open>The shape of every result\<close>

lemma extract_markdown_invariant:
  "success (extract_markdown cfg url options tok) = (error (extract_markdown cfg url options tok) = None)
   \<and> (\<not> success (extract_markdown cfg url options tok)) = (markdown (extract_markdown cfg url options tok) = None)
   \<and> (\<not> success (extract_markdown cfg url options tok)) = (metadata (extract_markdown cfg url options tok) = None)"
  by (cases url) (simp_all add: extract_markdown_def extract_failure_def Let_def)

lemma run_skill_invariant:
  "success (run_skill cfg skill payload tok) = (error (run_skill cfg skill payload tok) = None)
   \<and> (\<not> success (run_skill cfg skill payload tok)) = (result (run_skill cfg skill payload tok) = None)"
  by (cases payload) (simp_all add: run_skill_def skill_failure_def)

lemma generate_llm_txt_invariant:
  "success (generate_llm_txt cfg domain tok) = (error (generate_llm_txt cfg domain tok) = None)
   \<and> (\<not> success (generate_llm_txt cfg domain tok)) = (llm_txt (generate_llm_txt cfg domain tok) = None)
   \<and> (\<not> success (generate_llm_txt cfg domain tok)) = (llm_full_txt (generate_llm_txt cfg domain tok) = None)"
  by (cases domain) (simp_all add: generate_llm_txt_def llm_failure_def)

lemma publish_listing_invariant:
  "success (publish_listing service openapi llm) = (error (publish_listing service openapi llm) = None)
   \<and> (\<not> success (publish_listing service openapi llm)) = (listing (publish_listing service openapi llm) = None)"
  by (cases service) (simp_all add: publish_listing_def listing_failure_def)

lemma create_usage_charge_invariant:
  "(case create_usage_charge v cfg stripe agent service units_arg tok of
      Inl e \<Rightarrow> e = OverflowError
    | Inr r \<Rightarrow> success r = (error r = None) \<and> (\<not> success r) = (charge r = None))"
proof -
  have *: "\<And>n. int_to_float n = Inl OverflowError \<or> (\<exists>x. int_to_float n = Inr x)"
    by (simp add: int_to_float_def)
  show ?thesis
  proof (cases "\<exists>n. int_value units_arg = Some n")
    case True
    then obtain n where n: "int_value units_arg = Some n" by blast
    from * [of n] show ?thesis
    proof
      assume "int_to_float n = Inl OverflowError"
      then show ?thesis using n
        by (simp add: create_usage_charge_def charge_failure_def split: pyval.splits)
    next
      assume "\<exists>x. int_to_float n = Inr x"
      then obtain x where "int_to_float n = Inr x" by blast
      then show ?thesis using n
        by (simp add: create_usage_charge_def charge_failure_def Let_def
            split: pyval.splits sum.splits option.splits)
    qed
  next
    case False
    then have "int_value units_arg = None" by (cases "int_value units_arg") simp_all
    then show ?thesis
      by (simp add: create_usage_charge_def charge_failure_def split: pyval.splits)
  qed
qed

text \<open>
  C9.  Every record returned by a public operation has \<^verbatim>\<open>success = True\<close> exactly when
  its error is null, and \<^verbatim>\<open>success = False\<close> exactly when each payload field is null.
  \<^verbatim>\<open>extract_markdown\<close>, \<^verbatim>\<open>run_skill\<close>, \<^verbatim>\<open>generate_llm_txt\<close> and \<^verbatim>\<open>publish_listing\<close>
  return a record for every input; \<^verbatim>\<open>create_usage_charge\<close>, in each of the three
  services, returns such a record or raises the \<^verbatim>\<open>OverflowError\<close> of C4.
\<close>

theorem result_invariants:
  "success (extract_markdown cfg url options tok) = (error (extract_markdown cfg url options tok) = None)
   \<and> (\<not> success (extract_markdown cfg url options tok)) = (markdown (extract_markdown cfg url options tok) = None)
   \<and> (\<not> success (extract_markdown cfg url options tok)) = (metadata (extract_markdown cfg url options tok) = None)
   \<and> success (run_skill cfg skill payload tok) = (error (run_skill cfg skill payload tok) = None)
   \<and> (\<not> success (run_skill cfg skill payload tok)) = (result (run_skill cfg skill payload tok) = None)
   \<and> success (generate_llm_txt cfg domain tok) = (error (generate_llm_txt cfg domain tok) = None)
   \<and> (\<not> success (generate_llm_txt cfg domain tok)) = (llm_txt (generate_llm_txt cfg domain tok) = None)
   \<and> (\<not> success (generate_llm_txt cfg domain tok)) = (llm_full_txt (generate_llm_txt cfg domain tok) = None)
   \<and> success (publish_listing service openapi llm) = (error (publish_listing service openapi llm) = None)
   \<and> (\<not> success (publish_listing service openapi llm)) = (listing (publish_listing service openapi llm) = None)
   \<and> (case create_usage_charge v cfg stripe agent service units_arg tok of
        Inl e \<Rightarrow> e = OverflowError
      | Inr r \<Rightarrow> success r = (error r = None) \<and> (\<not> success r) = (charge r = None))"
  using extract_markdown_invariant [of cfg url options tok]
    run_skill_invariant [of cfg skill payload tok]
    generate_llm_txt_invariant [of cfg domain tok]
    publish_listing_invariant [of service openapi llm]
    create_usage_charge_invariant [of v cfg stripe agent service units_arg tok]
  by blast


theorem result_invariants_witness:
  "success (extract_markdown dev_env (PStr ''https://example.com'') (PDict []) (PStr ''Bearer t''))
   \<and> markdown (extract_markdown dev_env (PStr ''https://example.com'') (PDict []) (PStr ''Bearer t''))
       \<noteq> None
   \<and> metadata (extract_markdown dev_env (PStr ''https://example.com'') (PDict []) (PStr ''Bearer t''))
       \<noteq> None
   \<and> error (run_skill dev_env (PStr ''pdf_financials'') (PStr ''BAD'') (PStr ''Bearer t''))
       = Some ''SKILL_FAILED''
   \<and> success (run_skill dev_env (PStr ''pdf_financials'') (PStr ''BAD'') (PStr ''Bearer t'')) = False
   \<and> result (run_skill dev_env (PStr ''pdf_financials'') (PStr ''BAD'') (PStr ''Bearer t'')) = None
   \<and> success (generate_llm_txt dev_env (PStr ''example.com'') (PStr ''Bearer t''))
   \<and> llm_txt (generate_llm_txt dev_env (PStr ''example.com'') (PStr ''Bearer t'')) \<noteq> None
   \<and> error (publish_listing (PStr []) (PStr ''https://a'') (PStr ''https://b''))
       = Some ''INVALID_SERVICE''
   \<and> listing (publish_listing (PStr []) (PStr ''https://a'') (PStr ''https://b'')) = None
   \<and> create_usage_charge V1 dev_env no_provider (PStr ''agent'') (PStr []) (PInt 0) (PStr ''Bearer t'')
       = Inr \<lparr>success = False, error = Some ''UNKNOWN_SERVICE'', charge = None\<rparr>"
proof -
  note t = result_invariants [of dev_env "PStr ''https://example.com''" "PDict []"
      "PStr ''Bearer t''" "PStr ''pdf_financials''" "PStr ''BAD''" "PStr ''example.com''"
      "PStr []" "PStr ''https://a''" "PStr ''https://b''" V1 no_provider "PStr ''agent''" "PInt 0"]
  have e1: "error (extract_markdown dev_env (PStr ''https://example.com'') (PDict [])
              (PStr ''Bearer t'')) = None"
    by code_simp
  have e2: "error (run_skill dev_env (PStr ''pdf_financials'') (PStr ''BAD'') (PStr ''Bearer t''))
              = Some ''SKILL_FAILED''"
    by code_simp
  have e3: "error (generate_llm_txt dev_env (PStr ''example.com'') (PStr ''Bearer t'')) = None"
    by code_simp
  have e4: "error (publish_listing (PStr []) (PStr ''https://a'') (PStr ''https://b''))
              = Some ''INVALID_SERVICE''"
    by code_simp
  have e5: "create_usage_charge V1 dev_env no_provider (PStr ''agent'') (PStr []) (PInt 0)
              (PStr ''Bearer t'')
            = Inr \<lparr>success = False, error = Some ''UNKNOWN_SERVICE'', charge = None\<rparr>"
    using v1_bearer_t by (simp add: create_usage_charge_def charge_failure_def)
  from t e1 have s1:
    "success (extract_markdown dev_env (PStr ''https://example.com'') (PDict []) (PStr ''Bearer t''))"
    by simp
  with t have m1:
    "markdown (extract_markdown dev_env (PStr ''https://example.com'') (PDict []) (PStr ''Bearer t''))
       \<noteq> None"
    "metadata (extract_markdown dev_env (PStr ''https://example.com'') (PDict []) (PStr ''Bearer t''))
       \<noteq> None"
    by blast+
  from t e2 have s2:
    "success (run_skill dev_env (PStr ''pdf_financials'') (PStr ''BAD'') (PStr ''Bearer t'')) = False"
    by simp
  with t have m2:
    "result (run_skill dev_env (PStr ''pdf_financials'') (PStr ''BAD'') (PStr ''Bearer t'')) = None"
    by blast
  from t e3 have s3:
    "success (generate_llm_txt dev_env (PStr ''example.com'') (PStr ''Bearer t''))"
    by simp
  with t have m3:
    "llm_txt (generate_llm_txt dev_env (PStr ''example.com'') (PStr ''Bearer t'')) \<noteq> None"
    by blast
  from t e4 have s4:
    "\<not> success (publish_listing (PStr []) (PStr ''https://a'') (PStr ''https://b''))"
    by simp
  with t have m4:
    "listing (publish_listing (PStr []) (PStr ''https://a'') (PStr ''https://b'')) = None"
    by blast
  from s1 m1 e2 s2 m2 s3 m3 e4 m4 e5 show ?thesis by blast
qed

text \<open>
  The scenario of the specification: an authorized extraction of
  \<^verbatim>\<open>https://example.com\<close> with no options.
\<close>

lemma extract_example:
  "extract_markdown dev_env (PStr ''https://example.com'') (PDict []) (PStr ''Bearer t'')
   = \<lparr>success = True, error = None,
      markdown = Some (''# Example Site'' @ [CHR 0x0A, CHR 0x0A] @ ''Extracted content.''),
      metadata = Some \<lparr>source_url = ''https://example.com'', title = Some ''Example Site'',
                        token_count = 5, word_count = 5\<rparr>\<rparr>"
  by code_simp


end
